theory Spec2Isabelle
  imports Main "HOL-Library.Sublist"
begin

section \<open>Go library functions used by the sources\<close>

text \<open>
  Go strings are byte sequences; they are modelled as \<open>string\<close> (a list of 8-bit
  characters). The functions of package \<open>strings\<close> below follow the library's
  documented behaviour on the arguments the sources pass.
\<close>

subsection \<open>Package strings\<close>

text \<open>\<open>strings.Contains(s, substr)\<close>: \<open>substr\<close> occurs within \<open>s\<close>.\<close>

fun strings_Contains :: "string \<Rightarrow> string \<Rightarrow> bool" where
  "strings_Contains [] substr = (substr = [])"
| "strings_Contains (c # cs) substr = (prefix substr (c # cs) \<or> strings_Contains cs substr)"

text \<open>\<open>strings.HasPrefix(s, prefix)\<close>.\<close>

definition strings_HasPrefix :: "string \<Rightarrow> string \<Rightarrow> bool" where
  "strings_HasPrefix s p = prefix p s"

text \<open>
  \<open>strings.Split(s, sep)\<close> for a separator of one byte (the sources split on \<open>"/"\<close>
  and on \<open>","\<close>): the pieces between the separators, one more than there are
  separators; the empty string gives one empty piece.
\<close>

fun strings_Split :: "string \<Rightarrow> char \<Rightarrow> string list" where
  "strings_Split [] sep = [[]]"
| "strings_Split (c # cs) sep =
     (if c = sep then [] # strings_Split cs sep
      else (case strings_Split cs sep of
              [] \<Rightarrow> [[c]]
            | t # ts \<Rightarrow> (c # t) # ts))"

text \<open>
  \<open>strings.Replace(s, old, new, -1)\<close> for \<open>old\<close> of one byte: every occurrence
  of the byte is replaced.
\<close>

definition strings_Replace :: "string \<Rightarrow> char \<Rightarrow> string \<Rightarrow> string" where
  "strings_Replace s old new = concat (map (\<lambda>c. if c = old then new else [c]) s)"

text \<open>
  \<open>strings.TrimSpace(s)\<close> removes leading and trailing white space as
  \<open>unicode.IsSpace\<close> defines it, reading the string as UTF-8. The white-space code
  points are U+0009 to U+000D and U+0020 (one byte), U+0085 and U+00A0 (two bytes),
  and U+1680, U+2000 to U+200A, U+2028, U+2029, U+202F, U+205F, U+3000 (three bytes).
\<close>

definition isSpace1 :: "char \<Rightarrow> bool" where
  "isSpace1 a = (a \<in> {CHR 0x09, CHR 0x0A, CHR 0x0B, CHR 0x0C, CHR 0x0D, CHR 0x20})"

definition isSpace2 :: "char \<Rightarrow> char \<Rightarrow> bool" where
  "isSpace2 a b = (a = CHR 0xC2 \<and> (b = CHR 0x85 \<or> b = CHR 0xA0))"

definition isSpace3 :: "char \<Rightarrow> char \<Rightarrow> char \<Rightarrow> bool" where
  "isSpace3 a b c =
     ((a = CHR 0xE1 \<and> b = CHR 0x9A \<and> c = CHR 0x80) \<or>
      (a = CHR 0xE2 \<and> b = CHR 0x80 \<and>
         ((0x80 \<le> (of_char c :: nat) \<and> (of_char c :: nat) \<le> 0x8A) \<or>
          c = CHR 0xA8 \<or> c = CHR 0xA9 \<or> c = CHR 0xAF)) \<or>
      (a = CHR 0xE2 \<and> b = CHR 0x81 \<and> c = CHR 0x9F) \<or>
      (a = CHR 0xE3 \<and> b = CHR 0x80 \<and> c = CHR 0x80))"

fun TrimLeftSpace :: "string \<Rightarrow> string" where
  "TrimLeftSpace (a # b # c # s) =
     (if isSpace1 a then TrimLeftSpace (b # c # s)
      else if isSpace2 a b then TrimLeftSpace (c # s)
      else if isSpace3 a b c then TrimLeftSpace s
      else a # b # c # s)"
| "TrimLeftSpace [a, b] =
     (if isSpace1 a then TrimLeftSpace [b]
      else if isSpace2 a b then []
      else [a, b])"
| "TrimLeftSpace [a] = (if isSpace1 a then [] else [a])"
| "TrimLeftSpace [] = []"

text \<open>The same from the end, on the reversed string: \<open>c\<close> is the last byte.\<close>

fun TrimRightSpaceRev :: "string \<Rightarrow> string" where
  "TrimRightSpaceRev (c # b # a # s) =
     (if isSpace1 c then TrimRightSpaceRev (b # a # s)
      else if isSpace2 b c then TrimRightSpaceRev (a # s)
      else if isSpace3 a b c then TrimRightSpaceRev s
      else c # b # a # s)"
| "TrimRightSpaceRev [c, b] =
     (if isSpace1 c then TrimRightSpaceRev [b]
      else if isSpace2 b c then []
      else [c, b])"
| "TrimRightSpaceRev [c] = (if isSpace1 c then [] else [c])"
| "TrimRightSpaceRev [] = []"

definition strings_TrimSpace :: "string \<Rightarrow> string" where
  "strings_TrimSpace s = rev (TrimRightSpaceRev (rev (TrimLeftSpace s)))"

subsection \<open>Package regexp\<close>

text \<open>
  \<open>regexp.MatchString(pattern, s)\<close> compiles \<open>pattern\<close> and reports whether \<open>s\<close>
  contains a match of it; a pattern that does not compile gives an error, whatever
  \<open>s\<close> is. The functions of the program take the matcher as their first argument
  \<open>ms\<close>, so that what is proved of them for every \<open>ms\<close> holds of the library's
  matcher.

  An error of the library is a \<open>syntax.Error\<close>: a code and the offending part of the
  expression.
\<close>

datatype regexp_error = syntax_Error (Code: string) (Expr: string)

type_synonym matcher = "string \<Rightarrow> string \<Rightarrow> regexp_error + bool"

text \<open>\<open>(*syntax.Error).Error()\<close>: the text of the error.\<close>

definition Error_text :: "regexp_error \<Rightarrow> string" where
  "Error_text e = ''error parsing regexp: '' @ Code e @ '': `'' @ Expr e @ ''`''"

definition ErrMissingRepeatArgument :: string where
  "ErrMissingRepeatArgument = ''missing argument to repetition operator''"

definition ErrInvalidRepeatOp :: string where
  "ErrInvalidRepeatOp = ''invalid nested repetition operator''"

text \<open>
  For concrete inputs the library's matcher is modelled on a fragment of its syntax:
  a pattern is a sequence of literal bytes and \<open>.\<close> (any character but newline), each
  with an optional repetition operator \<open>*\<close>, \<open>+\<close> or \<open>?\<close>, itself optionally followed
  by the non-greedy mark \<open>?\<close>. The parser below follows the loop of
  \<open>syntax.Parse\<close> with the Perl flags on this fragment: a repetition operator with
  nothing before it is \<open>ErrMissingRepeatArgument\<close>, one right after another
  repetition is \<open>ErrInvalidRepeatOp\<close>. Groups, alternation, classes, anchors,
  counted repetition, escapes and bytes outside ASCII (in the pattern or in the
  text) are beyond the fragment: there the model answers the error
  \<open>outside_fragment\<close>, which is no answer of the library, and nothing below
  evaluates the model at such an input.
\<close>

datatype atom = Lit char | AnyCharNotNL

datatype rep = Once | Star | Plus | Quest

type_synonym item = "atom \<times> rep"

definition outside_fragment :: "string \<Rightarrow> regexp_error" where
  "outside_fragment pattern = syntax_Error ''outside the modelled fragment'' pattern"

definition is_ascii :: "char \<Rightarrow> bool" where
  "is_ascii c = ((of_char c :: nat) < 128)"

definition is_literal :: "char \<Rightarrow> bool" where
  "is_literal c =
     (is_ascii c \<and>
      c \<notin> {CHR ''('', CHR '')'', CHR ''|'', CHR ''^'', CHR ''$'', CHR ''.'', CHR ''['',
           CHR ''*'', CHR ''+'', CHR ''?'', CHR ''{'', CHR 0x5C})"

definition repeat_op :: "char \<Rightarrow> rep" where
  "repeat_op c = (if c = CHR ''*'' then Star else if c = CHR ''+'' then Plus else Quest)"

text \<open>The rest of the pattern after an operator: a following \<open>?\<close> belongs to it.\<close>

definition after_op :: "string \<Rightarrow> string" where
  "after_op t = (case t of [] \<Rightarrow> [] | q # t' \<Rightarrow> if q = CHR ''?'' then t' else t)"

text \<open>
  \<open>parse whole stack lastRepeat t\<close>: \<open>stack\<close> holds the items read so far, last
  first; \<open>lastRepeat\<close> is the pattern from the previous repetition operator on when
  the previous token was one, and empty otherwise; \<open>t\<close> is what is left to read.
\<close>

function parse :: "string \<Rightarrow> item list \<Rightarrow> string \<Rightarrow> string \<Rightarrow> regexp_error + item list" where
  "parse whole stack lastRepeat [] = Inr (rev stack)"
| "parse whole stack lastRepeat (c # t) =
     (if c = CHR ''*'' \<or> c = CHR ''+'' \<or> c = CHR ''?'' then
        (let after = after_op t in
         if lastRepeat \<noteq> [] then
           Inl (syntax_Error ErrInvalidRepeatOp
                  (take (length lastRepeat - length after) lastRepeat))
         else
           (case stack of
              [] \<Rightarrow> Inl (syntax_Error ErrMissingRepeatArgument
                           (take (length (c # t) - length after) (c # t)))
            | (a, r) # rest \<Rightarrow> parse whole ((a, repeat_op c) # rest) (c # t) after))
      else if c = CHR ''.'' then parse whole ((AnyCharNotNL, Once) # stack) [] t
      else if is_literal c then parse whole ((Lit c, Once) # stack) [] t
      else Inl (outside_fragment whole))"
  by pat_completeness auto
termination
  by (relation "measure (\<lambda>(whole, stack, lastRepeat, t). length t)")
     (auto simp: after_op_def split: list.split)

definition atom_matches :: "atom \<Rightarrow> char \<Rightarrow> bool" where
  "atom_matches a c = (case a of Lit x \<Rightarrow> c = x | AnyCharNotNL \<Rightarrow> c \<noteq> CHR 0x0A)"

text \<open>\<open>match_here items s\<close>: a prefix of \<open>s\<close> matches the items in sequence.\<close>

fun match_here :: "item list \<Rightarrow> string \<Rightarrow> bool" where
  "match_here [] s = True"
| "match_here ((a, Once) # items) [] = False"
| "match_here ((a, Once) # items) (c # cs) = (atom_matches a c \<and> match_here items cs)"
| "match_here ((a, Quest) # items) [] = match_here items []"
| "match_here ((a, Quest) # items) (c # cs) =
     (match_here items (c # cs) \<or> (atom_matches a c \<and> match_here items cs))"
| "match_here ((a, Star) # items) [] = match_here items []"
| "match_here ((a, Star) # items) (c # cs) =
     (match_here items (c # cs) \<or> (atom_matches a c \<and> match_here ((a, Star) # items) cs))"
| "match_here ((a, Plus) # items) [] = False"
| "match_here ((a, Plus) # items) (c # cs) =
     (atom_matches a c \<and> match_here ((a, Star) # items) cs)"

text \<open>\<open>match_anywhere items s\<close>: the match may start at any position of \<open>s\<close>.\<close>

fun match_anywhere :: "item list \<Rightarrow> string \<Rightarrow> bool" where
  "match_anywhere items [] = match_here items []"
| "match_anywhere items (c # cs) = (match_here items (c # cs) \<or> match_anywhere items cs)"

definition regexp_MatchString :: matcher where
  "regexp_MatchString pattern s =
     (case parse pattern [] [] pattern of
        Inl err \<Rightarrow> Inl err
      | Inr items \<Rightarrow>
          if list_all is_ascii s then Inr (match_anywhere items s)
          else Inl (outside_fragment pattern))"

section \<open>Types of the packages acl, op and util\<close>

text \<open>
  Modelled from the spec: package \<open>acl\<close> is not among the sources. An ACL is an
  enumerated category; the sources name \<open>acl.Misc\<close> and \<open>acl.Streams\<close>, and every
  other category is a \<open>Category\<close> with its number.
\<close>

datatype ACL = Misc | Streams | Category nat

text \<open>
  Modelled from the spec: package \<open>op\<close> is not among the sources. An operation is one
  of Read, Write and Delete.
\<close>

datatype Operation = Read | Write | Delete

text \<open>
  Modelled from the spec: \<open>util.Contains(list, s)\<close> is not among the sources; it tells
  whether \<open>s\<close> is a member of \<open>list\<close>.
\<close>

definition util_Contains :: "string list \<Rightarrow> string \<Rightarrow> bool" where
  "util_Contains list s = (s \<in> set list)"

section \<open>The user entity (internal/types/user/user.go)\<close>

text \<open>
  The pointer \<open>IsAdmin\<close> and the three slices can be nil: they are options, \<open>None\<close>
  for nil. Ranging over a nil slice visits nothing.
\<close>

record User =
  UserId :: string
  Password :: string
  IsAdmin :: "bool option"
  ACLs :: "ACL list option"
  Email :: string
  Ops :: "Operation list option"
  Indices :: "string list option"

definition elements :: "'a list option \<Rightarrow> 'a list" where
  "elements slice = (case slice of None \<Rightarrow> [] | Some xs \<Rightarrow> xs)"

definition HasACL :: "User \<Rightarrow> ACL \<Rightarrow> bool" where
  "HasACL u a = (a \<in> set (elements (ACLs u)))"

definition Can :: "User \<Rightarrow> Operation \<Rightarrow> bool" where
  "Can u operation = (operation \<in> set (elements (Ops u)))"

text \<open>
  The loop of \<open>CanAccessIndex\<close> over the patterns. The Go function returns a pair;
  \<open>Inl err\<close> stands for \<open>(false, err)\<close> and \<open>Inr b\<close> for \<open>(b, nil)\<close>.
\<close>

fun canAccessIndex_loop :: "matcher \<Rightarrow> string list \<Rightarrow> string \<Rightarrow> regexp_error + bool" where
  "canAccessIndex_loop ms [] name = Inr False"
| "canAccessIndex_loop ms (pattern # rest) name =
     (case ms pattern name of
        Inl err \<Rightarrow> Inl err
      | Inr matched \<Rightarrow> if matched then Inr True else canAccessIndex_loop ms rest name)"

definition CanAccessIndex :: "matcher \<Rightarrow> User \<Rightarrow> string \<Rightarrow> regexp_error + bool" where
  "CanAccessIndex ms u name = canAccessIndex_loop ms (elements (Indices u)) name"

text \<open>The values a patch holds: \<open>map[string]interface{}\<close> restricted to what is stored.\<close>

datatype patch_value =
    String_value string
  | Bool_value bool
  | ACLs_value "ACL list"
  | Ops_value "Operation list"
  | Strings_value "string list"

text \<open>\<open>GetPatch\<close>; its error result is always nil and is left out.\<close>

definition GetPatch :: "User \<Rightarrow> (string \<rightharpoonup> patch_value)" where
  "GetPatch u =
     (let patch = Map.empty;
          patch = (if UserId u \<noteq> [] then patch(''user_id'' \<mapsto> String_value (UserId u)) else patch);
          patch = (if Password u \<noteq> [] then patch(''password'' \<mapsto> String_value (Password u)) else patch);
          patch = (case IsAdmin u of None \<Rightarrow> patch | Some b \<Rightarrow> patch(''is_admin'' \<mapsto> Bool_value b));
          patch = (if Email u \<noteq> [] then patch(''email'' \<mapsto> String_value (Email u)) else patch);
          patch = (case ACLs u of None \<Rightarrow> patch | Some acls \<Rightarrow> patch(''acls'' \<mapsto> ACLs_value acls));
          patch = (case Ops u of None \<Rightarrow> patch | Some ops \<Rightarrow> patch(''ops'' \<mapsto> Ops_value ops));
          patch = (case Indices u of None \<Rightarrow> patch | Some indices \<Rightarrow> patch(''indices'' \<mapsto> Strings_value indices))
      in patch)"

section \<open>The classifier (plugins/es/middleware.go)\<close>

text \<open>
  Modelled from the spec: the type \<open>api\<close> is declared outside the sources. Its fields
  are the ones \<open>categorize\<close> and \<open>matchKeywords\<close> read: the ACL category, the
  accepted methods (\<open>api.spec.Methods\<close>), the map \<open>pathRegexps\<close> from endpoint to path
  pattern, and the keyword set. Go ranges over a map in no fixed order:
  \<open>api_pathRegexps\<close> is the list of the map's entries in the order the range statement visits them.
\<close>

record api =
  api_acl :: ACL
  api_spec_Methods :: "string list"
  api_pathRegexps :: "(string \<times> string) list"
  api_keywords :: "string set"

datatype panic = IndexOutOfRange

definition indexVar :: string where
  "indexVar = ''{index}''"

text \<open>
  The loop \<open>for i := 0; i < len(requestPath); i++\<close> of \<open>getIndexName\<close>: \<open>n\<close> is
  \<open>len(requestPath)\<close>, the length of the path in bytes. Indexing a slice beyond its
  length panics.
\<close>

function getIndexName_loop :: "string list \<Rightarrow> string list \<Rightarrow> nat \<Rightarrow> nat \<Rightarrow> panic + string list" where
  "getIndexName_loop endpointTokens requestPathTokens n i =
     (if i < n then
        (if i < length endpointTokens then
           (if endpointTokens ! i = indexVar then
              (if i < length requestPathTokens then
                 Inr (map strings_TrimSpace (strings_Split (requestPathTokens ! i) (CHR '','')))
               else Inl IndexOutOfRange)
            else getIndexName_loop endpointTokens requestPathTokens n (Suc i))
         else Inl IndexOutOfRange)
      else Inr [])"
  by pat_completeness auto
termination
  by (relation "measure (\<lambda>(endpointTokens, requestPathTokens, n, i). n - i)") auto

declare getIndexName_loop.simps [simp del]

definition getIndexName :: "string \<Rightarrow> string \<Rightarrow> panic + string list" where
  "getIndexName endpoint requestPath =
     (if \<not> strings_Contains endpoint indexVar then Inr []
      else
        (let endpointTokens = strings_Split endpoint (CHR ''/'');
             requestPathTokens = strings_Split requestPath (CHR ''/'')
         in if length endpointTokens \<noteq> length requestPathTokens then Inr []
            else getIndexName_loop endpointTokens requestPathTokens (length requestPath) 0))"

fun matchKeywords_loop :: "string set \<Rightarrow> string list \<Rightarrow> nat \<Rightarrow> bool" where
  "matchKeywords_loop kws [] count = (count = 0)"
| "matchKeywords_loop kws (token # tokens) count =
     (if strings_HasPrefix token ''_'' then
        (if token \<in> kws then True else matchKeywords_loop kws tokens (count + 1))
      else matchKeywords_loop kws tokens count)"

definition matchKeywords :: "api \<Rightarrow> string \<Rightarrow> bool" where
  "matchKeywords a path = matchKeywords_loop (api_keywords a) (strings_Split path (CHR ''/'')) 0"

definition MethodGet :: string where "MethodGet = ''GET''"
definition MethodPost :: string where "MethodPost = ''POST''"
definition MethodPut :: string where "MethodPut = ''PUT''"
definition MethodHead :: string where "MethodHead = ''HEAD''"
definition MethodDelete :: string where "MethodDelete = ''DELETE''"

definition getOp :: "string list \<Rightarrow> string \<Rightarrow> Operation" where
  "getOp methods method =
     (if method = MethodGet then Read
      else if method = MethodPost then
        (if util_Contains methods MethodGet then Read else Write)
      else if method = MethodPut then Write
      else if method = MethodHead then Read
      else if method = MethodDelete then Delete
      else Read)"

text \<open>
  \<open>categorize\<close>: the first entry of the first spec whose pattern matches the path,
  whose methods hold the method and whose keywords agree decides; a pattern that does
  not compile is skipped. A panic of \<open>getIndexName\<close> is the result of the call.
\<close>

fun categorize_paths ::
  "matcher \<Rightarrow> api \<Rightarrow> (string \<times> string) list \<Rightarrow> string \<Rightarrow> string
     \<Rightarrow> (panic + ACL \<times> Operation \<times> string list) option" where
  "categorize_paths ms a [] method path = None"
| "categorize_paths ms a ((endpoint, pattern) # rest) method path =
     (case ms pattern path of
        Inl err \<Rightarrow> categorize_paths ms a rest method path
      | Inr ok \<Rightarrow>
          if ok \<and> util_Contains (api_spec_Methods a) method \<and> matchKeywords a path then
            Some (case getIndexName endpoint path of
                    Inl p \<Rightarrow> Inl p
                  | Inr indices \<Rightarrow> Inr (api_acl a, getOp (api_spec_Methods a) method, indices))
          else categorize_paths ms a rest method path)"

fun categorize_specs ::
  "matcher \<Rightarrow> api list \<Rightarrow> string \<Rightarrow> string
     \<Rightarrow> (panic + ACL \<times> Operation \<times> string list) option" where
  "categorize_specs ms [] method path = None"
| "categorize_specs ms (a # specs) method path =
     (case categorize_paths ms a (api_pathRegexps a) method path of
        Some r \<Rightarrow> Some r
      | None \<Rightarrow> categorize_specs ms specs method path)"

definition categorize ::
  "matcher \<Rightarrow> api list \<Rightarrow> string \<Rightarrow> string \<Rightarrow> panic + ACL \<times> Operation \<times> string list" where
  "categorize ms specs method path =
     (case categorize_specs ms specs method path of
        Some r \<Rightarrow> r
      | None \<Rightarrow> Inr (Misc, Read, []))"

text \<open>
  The condition under which \<open>categorize\<close> returns at an entry of a spec: the pattern
  compiles and matches the path, the method is one of the spec's, and the keywords
  agree.
\<close>

definition spec_matches :: "matcher \<Rightarrow> api \<Rightarrow> string \<Rightarrow> string \<Rightarrow> string \<Rightarrow> bool" where
  "spec_matches ms a pattern method path =
     (ms pattern path = Inr True \<and> util_Contains (api_spec_Methods a) method \<and> matchKeywords a path)"

section \<open>The enforcement filters (plugins/es/middleware.go)\<close>

text \<open>
  Modelled from the spec: package \<open>permission\<close> is not among the sources. A
  permission has the fields and methods the filters use: \<open>Username\<close>, the granted
  ACLs and operations, and the resource patterns \<open>Indices\<close>. \<open>HasACL\<close> and
  \<open>CanDo\<close> are membership; \<open>CanAccessIndex\<close> is the loop of the user entity's
  \<open>CanAccessIndex\<close> over the permission's patterns.
\<close>

record Permission =
  Username :: string
  Permission_ACLs :: "ACL list"
  Permission_Ops :: "Operation list"
  Permission_Indices :: "string list"

definition Permission_HasACL :: "Permission \<Rightarrow> ACL \<Rightarrow> bool" where
  "Permission_HasACL p a = (a \<in> set (Permission_ACLs p))"

definition Permission_CanDo :: "Permission \<Rightarrow> Operation \<Rightarrow> bool" where
  "Permission_CanDo p operation = (operation \<in> set (Permission_Ops p))"

definition Permission_CanAccessIndex :: "matcher \<Rightarrow> Permission \<Rightarrow> string \<Rightarrow> regexp_error + bool" where
  "Permission_CanAccessIndex ms p name = canAccessIndex_loop ms (Permission_Indices p) name"

text \<open>
  The values a request's context carries for the filters: the ACL, the operation and
  the resource names the classifier stored, and the permission of the caller. Each is
  \<open>None\<close> when the context holds no value under its key.
\<close>

record request_context =
  ctx_acl :: "ACL option"
  ctx_op :: "Operation option"
  ctx_indices :: "string list option"
  ctx_permission :: "Permission option"

datatype context_error = NotFoundInRequestContext

text \<open>
  Modelled from the spec: \<open>acl.FromContext\<close>, \<open>op.FromContext\<close> and
  \<open>permission.FromContext\<close> are not among the sources. Each returns the value the
  context holds under its key, and an error when the context holds none.
\<close>

definition acl_FromContext :: "request_context \<Rightarrow> context_error + ACL" where
  "acl_FromContext ctx = (case ctx_acl ctx of None \<Rightarrow> Inl NotFoundInRequestContext | Some a \<Rightarrow> Inr a)"

definition op_FromContext :: "request_context \<Rightarrow> context_error + Operation" where
  "op_FromContext ctx = (case ctx_op ctx of None \<Rightarrow> Inl NotFoundInRequestContext | Some operation \<Rightarrow> Inr operation)"

definition permission_FromContext :: "request_context \<Rightarrow> context_error + Permission" where
  "permission_FromContext ctx =
     (case ctx_permission ctx of None \<Rightarrow> Inl NotFoundInRequestContext | Some p \<Rightarrow> Inr p)"

text \<open>
  What a filter does with a request: it writes a response through
  \<open>util.WriteBackError\<close> or \<open>util.WriteBackMessage\<close> (a text and a status code) and
  returns, or it calls the next handler \<open>h\<close>.
\<close>

datatype response = WriteBackError string nat | WriteBackMessage string nat

datatype outcome = Responded response | Next

definition status :: "response \<Rightarrow> nat" where
  "status r = (case r of WriteBackError msg code \<Rightarrow> code | WriteBackMessage msg code \<Rightarrow> code)"

definition StatusBadRequest :: nat where "StatusBadRequest = 400"
definition StatusUnauthorized :: nat where "StatusUnauthorized = 401"
definition StatusInternalServerError :: nat where "StatusInternalServerError = 500"

text \<open>
  \<open>validateACL\<close> and \<open>validateOp\<close> print the ACL and the operation with \<open>%s\<close>; the
  \<open>String\<close> methods of the two types are the parameters \<open>acl_String\<close> and
  \<open>op_String\<close>.
\<close>

definition validateACL :: "(ACL \<Rightarrow> string) \<Rightarrow> request_context \<Rightarrow> outcome" where
  "validateACL acl_String ctx =
     (let errMsg = ''An error occurred while validating request acl'' in
      case acl_FromContext ctx of
        Inl err \<Rightarrow> Responded (WriteBackError errMsg StatusInternalServerError)
      | Inr reqACL \<Rightarrow>
          (case permission_FromContext ctx of
             Inl err \<Rightarrow> Responded (WriteBackError errMsg StatusInternalServerError)
           | Inr reqPermission \<Rightarrow>
               if \<not> Permission_HasACL reqPermission reqACL then
                 Responded (WriteBackMessage
                   (''permission with username='' @ Username reqPermission @
                    '' does not have '' @ [CHR 0x27] @ acl_String reqACL @ [CHR 0x27] @ '' acl'')
                   StatusUnauthorized)
               else Next))"

definition validateOp :: "(Operation \<Rightarrow> string) \<Rightarrow> request_context \<Rightarrow> outcome" where
  "validateOp op_String ctx =
     (let errMsg = ''An error occurred while validating request op'' in
      case op_FromContext ctx of
        Inl err \<Rightarrow> Responded (WriteBackError errMsg StatusInternalServerError)
      | Inr reqOp \<Rightarrow>
          (case permission_FromContext ctx of
             Inl err \<Rightarrow> Responded (WriteBackError errMsg StatusInternalServerError)
           | Inr reqPermission \<Rightarrow>
               if \<not> Permission_CanDo reqPermission reqOp then
                 Responded (WriteBackMessage
                   (''permission with username='' @ Username reqPermission @
                    '' does not have '' @ [CHR 0x27] @ op_String reqOp @ [CHR 0x27] @ '' operation'')
                   StatusUnauthorized)
               else Next))"

text \<open>
  The index-level route of \<open>validateIndices\<close>: for each index name, for each pattern
  of the permission, the pattern with every \<open>*\<close> replaced by \<open>.*\<close> is matched
  against the name; the first pattern that does not compile or does not match ends
  the request with a response.
\<close>

fun validateIndices_patterns :: "matcher \<Rightarrow> string \<Rightarrow> string list \<Rightarrow> response option" where
  "validateIndices_patterns ms indexName [] = None"
| "validateIndices_patterns ms indexName (p # ps) =
     (let pattern = strings_Replace p (CHR ''*'') ''.*'' in
      case ms pattern indexName of
        Inl err \<Rightarrow>
          Some (WriteBackMessage (''invalid index pattern encountered '' @ pattern) StatusUnauthorized)
      | Inr ok \<Rightarrow>
          if \<not> ok then
            Some (WriteBackMessage (''User is unauthorized to access index '' @ indexName)
                    StatusUnauthorized)
          else validateIndices_patterns ms indexName ps)"

fun validateIndices_names :: "matcher \<Rightarrow> string list \<Rightarrow> string list \<Rightarrow> response option" where
  "validateIndices_names ms patterns [] = None"
| "validateIndices_names ms patterns (indexName # indices) =
     (case validateIndices_patterns ms indexName patterns of
        Some r \<Rightarrow> Some r
      | None \<Rightarrow> validateIndices_names ms patterns indices)"

definition validateIndices :: "matcher \<Rightarrow> request_context \<Rightarrow> outcome" where
  "validateIndices ms ctx =
     (let errMsg = ''An error occurred while validating request indices'' in
      case permission_FromContext ctx of
        Inl err \<Rightarrow> Responded (WriteBackError errMsg StatusInternalServerError)
      | Inr reqPermission \<Rightarrow>
          (case ctx_indices ctx of
             None \<Rightarrow> Responded (WriteBackMessage ''Internal server error'' StatusInternalServerError)
           | Some indices \<Rightarrow>
               if length indices = 0 then
                 (case Permission_CanAccessIndex ms reqPermission ''*'' of
                    Inl err \<Rightarrow> Responded (WriteBackError (Error_text err) StatusBadRequest)
                  | Inr canAccess \<Rightarrow>
                      if \<not> canAccess then
                        Responded (WriteBackError
                          ''User is unauthorized to access cluster level routes''
                          StatusUnauthorized)
                      else Next)
               else
                 (case validateIndices_names ms (Permission_Indices reqPermission) indices of
                    Some r \<Rightarrow> Responded r
                  | None \<Rightarrow> Next)))"

section \<open>Evaluating the matcher of the fragment\<close>

lemmas regexp_model_defs =
  regexp_MatchString_def after_op_def is_literal_def is_ascii_def repeat_op_def atom_matches_def

section \<open>The operation of a request\<close>

text \<open>
  Claim C6. For every accepted-method list and every request method, \<open>getOp\<close>
  returns Read for GET and for HEAD, Write for PUT, Delete for DELETE, for POST Read
  when the accepted methods hold GET and Write otherwise, and Read for every other
  method.
\<close>

theorem getOp_by_method:
  "getOp methods ''GET'' = Read \<and>
   getOp methods ''HEAD'' = Read \<and>
   getOp methods ''PUT'' = Write \<and>
   getOp methods ''DELETE'' = Delete \<and>
   getOp methods ''POST'' = (if ''GET'' \<in> set methods then Read else Write) \<and>
   (method \<notin> {''GET'', ''HEAD'', ''PUT'', ''DELETE'', ''POST''} \<longrightarrow> getOp methods method = Read)"
  by (simp add: getOp_def util_Contains_def MethodGet_def MethodPost_def MethodPut_def
        MethodHead_def MethodDelete_def)

theorem getOp_by_method_witness:
  "getOp [''GET'', ''POST''] ''POST'' = Read \<and>
   getOp [''POST''] ''POST'' = Write \<and>
   ''PATCH'' \<notin> {''GET'', ''HEAD'', ''PUT'', ''DELETE'', ''POST''} \<and>
   getOp [''POST''] ''PATCH'' = Read"
  using getOp_by_method [of "[''GET'', ''POST'']" "''PATCH''"]
        getOp_by_method [of "[''POST'']" "''PATCH''"]
  by simp

section \<open>Patches of the user entity\<close>

text \<open>
  Claim C5. For every delta entity, \<open>GetPatch\<close> gives a mapping from field names to
  values that holds exactly the fields whose value is not the default: a string field
  when it is not empty, the admin flag when it is set, a collection when it is not
  absent; every other key is absent. A delta with only the email set gives a mapping
  whose only key is \<open>email\<close>.
\<close>

theorem GetPatch_exactly_set_fields:
  "GetPatch u ''user_id'' = (if UserId u = [] then None else Some (String_value (UserId u))) \<and>
   GetPatch u ''password'' = (if Password u = [] then None else Some (String_value (Password u))) \<and>
   GetPatch u ''is_admin'' = map_option Bool_value (IsAdmin u) \<and>
   GetPatch u ''email'' = (if Email u = [] then None else Some (String_value (Email u))) \<and>
   GetPatch u ''acls'' = map_option ACLs_value (ACLs u) \<and>
   GetPatch u ''ops'' = map_option Ops_value (Ops u) \<and>
   GetPatch u ''indices'' = map_option Strings_value (Indices u) \<and>
   (k \<notin> {''user_id'', ''password'', ''is_admin'', ''email'', ''acls'', ''ops'', ''indices''}
      \<longrightarrow> GetPatch u k = None) \<and>
   (UserId u = [] \<and> Password u = [] \<and> IsAdmin u = None \<and> Email u \<noteq> [] \<and>
    ACLs u = None \<and> Ops u = None \<and> Indices u = None
      \<longrightarrow> dom (GetPatch u) = {''email''})"
  by (auto simp add: GetPatch_def Let_def split: option.splits if_splits)

theorem GetPatch_exactly_set_fields_witness:
  "GetPatch \<lparr>UserId = [], Password = [], IsAdmin = None, ACLs = None,
             Email = ''a@b.c'', Ops = None, Indices = None\<rparr> ''email''
     = Some (String_value ''a@b.c'') \<and>
   ''name'' \<notin> {''user_id'', ''password'', ''is_admin'', ''email'', ''acls'', ''ops'', ''indices''} \<and>
   GetPatch \<lparr>UserId = [], Password = [], IsAdmin = None, ACLs = None,
             Email = ''a@b.c'', Ops = None, Indices = None\<rparr> ''name'' = None \<and>
   dom (GetPatch \<lparr>UserId = [], Password = [], IsAdmin = None, ACLs = None,
             Email = ''a@b.c'', Ops = None, Indices = None\<rparr>) = {''email''}"
  using GetPatch_exactly_set_fields
          [of "\<lparr>UserId = [], Password = [], IsAdmin = None, ACLs = None,
                Email = ''a@b.c'', Ops = None, Indices = None\<rparr>" "''name''"]
  by simp

section \<open>The fallback of the classifier\<close>

lemma categorize_paths_no_match:
  "\<forall>(endpoint, pattern) \<in> set entries. \<not> spec_matches ms a pattern method path
     \<Longrightarrow> categorize_paths ms a entries method path = None"
  by (induction entries) (auto simp: spec_matches_def split: sum.splits)

lemma categorize_specs_no_match:
  "\<forall>a \<in> set specs. \<forall>(endpoint, pattern) \<in> set (api_pathRegexps a).
       \<not> spec_matches ms a pattern method path
     \<Longrightarrow> categorize_specs ms specs method path = None"
  by (induction specs) (auto simp: categorize_paths_no_match)

text \<open>
  Claim C8. For every method and path that match no entry of a registered spec,
  \<open>categorize\<close> returns the default: the ACL miscellaneous, the operation Read and
  the empty resource list; it returns a value, not an error.
\<close>

theorem categorize_fallback:
  assumes "\<forall>a \<in> set specs. \<forall>(endpoint, pattern) \<in> set (api_pathRegexps a).
             \<not> spec_matches ms a pattern method path"
  shows "categorize ms specs method path = Inr (Misc, Read, [])"
  using categorize_specs_no_match [OF assms] by (simp add: categorize_def)

theorem categorize_fallback_witness:
  "regexp_MatchString ''/_cat/.*'' ''/idx/_search'' = Inr False \<and>
   regexp_MatchString ''/.*/_search'' ''/idx/_search'' = Inr True \<and>
   \<not> util_Contains [''GET'', ''POST''] ''DELETE'' \<and>
   categorize regexp_MatchString
     [\<lparr>api_acl = Category 1, api_spec_Methods = [''GET''],
        api_pathRegexps = [(''/_cat/{index}'', ''/_cat/.*'')], api_keywords = {''_cat''}\<rparr>,
      \<lparr>api_acl = Category 2, api_spec_Methods = [''GET'', ''POST''],
        api_pathRegexps = [(''/{index}/_search'', ''/.*/_search'')], api_keywords = {''_search''}\<rparr>]
     ''DELETE'' ''/idx/_search'' = Inr (Misc, Read, [])"
proof -
  have r1: "regexp_MatchString ''/_cat/.*'' ''/idx/_search'' = Inr False"
    by (simp add: regexp_model_defs)
  have r2: "regexp_MatchString ''/.*/_search'' ''/idx/_search'' = Inr True"
    by (simp add: regexp_model_defs)
  have m: "\<not> util_Contains [''GET'', ''POST''] ''DELETE''"
    by (simp add: util_Contains_def)
  show ?thesis
    using categorize_fallback [of
      "[\<lparr>api_acl = Category 1, api_spec_Methods = [''GET''],
        api_pathRegexps = [(''/_cat/{index}'', ''/_cat/.*'')], api_keywords = {''_cat''}\<rparr>,
      \<lparr>api_acl = Category 2, api_spec_Methods = [''GET'', ''POST''],
        api_pathRegexps = [(''/{index}/_search'', ''/.*/_search'')], api_keywords = {''_search''}\<rparr>]"
      regexp_MatchString "''DELETE''" "''/idx/_search''"] r1 r2 m
    by (simp add: spec_matches_def)
qed

section \<open>A filter without its context value\<close>

text \<open>
  Claim C9. When the value a filter needs is absent from the request's context (the
  ACL for \<open>validateACL\<close>, the operation for \<open>validateOp\<close>, the resource list for
  \<open>validateIndices\<close>), the filter writes a response with the internal-error status
  and does not call the next handler; the response is never an unauthorized one.
\<close>

theorem absent_context_value_is_internal_error:
  "(ctx_acl ctx = None \<longrightarrow>
      validateACL acl_String ctx =
        Responded (WriteBackError ''An error occurred while validating request acl''
                     StatusInternalServerError)) \<and>
   (ctx_op ctx = None \<longrightarrow>
      validateOp op_String ctx =
        Responded (WriteBackError ''An error occurred while validating request op''
                     StatusInternalServerError)) \<and>
   (ctx_indices ctx = None \<longrightarrow>
      validateIndices ms ctx =
        Responded (case ctx_permission ctx of
                     None \<Rightarrow> WriteBackError ''An error occurred while validating request indices''
                               StatusInternalServerError
                   | Some p \<Rightarrow> WriteBackMessage ''Internal server error''
                               StatusInternalServerError)) \<and>
   ((ctx_acl ctx = None \<longrightarrow>
       (\<exists>r. validateACL acl_String ctx = Responded r \<and> status r \<noteq> StatusUnauthorized)) \<and>
    (ctx_op ctx = None \<longrightarrow>
       (\<exists>r. validateOp op_String ctx = Responded r \<and> status r \<noteq> StatusUnauthorized)) \<and>
    (ctx_indices ctx = None \<longrightarrow>
       (\<exists>r. validateIndices ms ctx = Responded r \<and> status r \<noteq> StatusUnauthorized)))"
  by (simp add: validateACL_def validateOp_def validateIndices_def acl_FromContext_def
        op_FromContext_def permission_FromContext_def status_def StatusUnauthorized_def
        StatusInternalServerError_def split: option.split)

theorem absent_context_value_is_internal_error_witness:
  "ctx_acl \<lparr>ctx_acl = None, ctx_op = None, ctx_indices = None,
            ctx_permission = Some \<lparr>Username = ''u'', Permission_ACLs = [Misc],
              Permission_Ops = [Read], Permission_Indices = [''.*'']\<rparr>\<rparr> = None \<and>
   validateACL (\<lambda>a. ''misc'')
     \<lparr>ctx_acl = None, ctx_op = None, ctx_indices = None,
      ctx_permission = Some \<lparr>Username = ''u'', Permission_ACLs = [Misc],
        Permission_Ops = [Read], Permission_Indices = [''.*'']\<rparr>\<rparr>
     = Responded (WriteBackError ''An error occurred while validating request acl'' 500) \<and>
   validateOp (\<lambda>a. ''read'')
     \<lparr>ctx_acl = None, ctx_op = None, ctx_indices = None,
      ctx_permission = Some \<lparr>Username = ''u'', Permission_ACLs = [Misc],
        Permission_Ops = [Read], Permission_Indices = [''.*'']\<rparr>\<rparr>
     = Responded (WriteBackError ''An error occurred while validating request op'' 500) \<and>
   validateIndices regexp_MatchString
     \<lparr>ctx_acl = None, ctx_op = None, ctx_indices = None,
      ctx_permission = Some \<lparr>Username = ''u'', Permission_ACLs = [Misc],
        Permission_Ops = [Read], Permission_Indices = [''.*'']\<rparr>\<rparr>
     = Responded (WriteBackMessage ''Internal server error'' 500)"
  using absent_context_value_is_internal_error
          [of "\<lparr>ctx_acl = None, ctx_op = None, ctx_indices = None,
                ctx_permission = Some \<lparr>Username = ''u'', Permission_ACLs = [Misc],
                  Permission_Ops = [Read], Permission_Indices = [''.*'']\<rparr>\<rparr>"
              "\<lambda>a. ''misc''" "\<lambda>a. ''read''" regexp_MatchString]
  by (simp add: StatusInternalServerError_def)

section \<open>Resource access of the user entity\<close>

lemma canAccessIndex_loop_find:
  "canAccessIndex_loop ms ps name =
     (case find (\<lambda>q. ms q name \<noteq> Inr False) ps of
        None \<Rightarrow> Inr False
      | Some p \<Rightarrow> (case ms p name of Inl e \<Rightarrow> Inl e | Inr b \<Rightarrow> Inr True))"
proof (induction ps)
  case Nil
  show ?case by simp
next
  case (Cons x xs)
  show ?case
  proof (cases "ms x name")
    case (Inl e)
    then show ?thesis by simp
  next
    case (Inr b)
    then show ?thesis using Cons.IH by (cases b) simp_all
  qed
qed

lemma canAccessIndex_loop_True_matches:
  "canAccessIndex_loop ms ps name = Inr True \<Longrightarrow> \<exists>p \<in> set ps. ms p name = Inr True"
proof (induction ps)
  case Nil
  then show ?case by simp
next
  case (Cons x xs)
  show ?case
  proof (cases "ms x name = Inr True")
    case True
    then show ?thesis by simp
  next
    case False
    with Cons.prems have "canAccessIndex_loop ms xs name = Inr True"
      by (cases "ms x name") (simp_all split: if_splits)
    with Cons.IH show ?thesis by simp
  qed
qed

lemma canAccessIndex_loop_Inl_stored:
  "canAccessIndex_loop ms ps name = Inl e \<Longrightarrow> \<exists>p \<in> set ps. ms p name = Inl e"
proof (induction ps)
  case Nil
  then show ?case by simp
next
  case (Cons x xs)
  show ?case
  proof (cases "ms x name = Inl e")
    case True
    then show ?thesis by simp
  next
    case False
    with Cons.prems have "canAccessIndex_loop ms xs name = Inl e"
      by (cases "ms x name") (simp_all split: if_splits)
    with Cons.IH show ?thesis by simp
  qed
qed

lemma canAccessIndex_loop_all_valid:
  "\<forall>p \<in> set ps. \<exists>b. ms p name = Inr b \<Longrightarrow>
     canAccessIndex_loop ms ps name = Inr (\<exists>p \<in> set ps. ms p name = Inr True)"
proof (induction ps)
  case Nil
  show ?case by simp
next
  case (Cons x xs)
  then obtain b where b: "ms x name = Inr b" by auto
  from Cons have "canAccessIndex_loop ms xs name = Inr (\<exists>p \<in> set xs. ms p name = Inr True)"
    by simp
  with b show ?case by (cases b) simp_all
qed

lemma canAccessIndex_loop_invalid_no_match:
  "\<exists>p \<in> set ps. isl (ms p name) \<Longrightarrow> \<forall>p \<in> set ps. ms p name \<noteq> Inr True \<Longrightarrow>
     isl (canAccessIndex_loop ms ps name)"
proof (induction ps)
  case Nil
  then show ?case by simp
next
  case (Cons x xs)
  show ?case
  proof (cases "ms x name")
    case (Inl e)
    then show ?thesis by simp
  next
    case (Inr b)
    with Cons.prems have nb: "\<not> b" by auto
    from Inr Cons.prems have "\<exists>p \<in> set xs. isl (ms p name)" by auto
    moreover from Cons.prems have "\<forall>p \<in> set xs. ms p name \<noteq> Inr True" by simp
    ultimately have "isl (canAccessIndex_loop ms xs name)" using Cons.IH by blast
    with Inr nb show ?thesis by simp
  qed
qed

text \<open>
  Claim C2, as the code has it. The result of \<open>CanAccessIndex\<close> is decided by the
  first stored pattern that matches the name or is not a valid regular expression:
  true when that pattern matches, its error when it is not valid, and false when
  there is no such pattern. So the result is true only if some stored pattern
  matches, and it is the disjunction over the patterns when all of them are valid; an
  error returned is the error of a stored pattern, and an error is returned when a
  stored pattern is not valid and none matches. A pattern stored after the first
  match is never compiled, and a match stored after the first invalid pattern is
  never found.
\<close>

theorem CanAccessIndex_first_decisive_pattern:
  "CanAccessIndex ms u name =
     (case find (\<lambda>q. ms q name \<noteq> Inr False) (elements (Indices u)) of
        None \<Rightarrow> Inr False
      | Some p \<Rightarrow> (case ms p name of Inl e \<Rightarrow> Inl e | Inr b \<Rightarrow> Inr True)) \<and>
   (CanAccessIndex ms u name = Inr True \<longrightarrow>
      (\<exists>p \<in> set (elements (Indices u)). ms p name = Inr True)) \<and>
   ((\<forall>p \<in> set (elements (Indices u)). \<exists>b. ms p name = Inr b) \<longrightarrow>
      CanAccessIndex ms u name = Inr (\<exists>p \<in> set (elements (Indices u)). ms p name = Inr True)) \<and>
   (CanAccessIndex ms u name = Inl e \<longrightarrow>
      (\<exists>p \<in> set (elements (Indices u)). ms p name = Inl e)) \<and>
   ((\<exists>p \<in> set (elements (Indices u)). isl (ms p name)) \<and>
    (\<forall>p \<in> set (elements (Indices u)). ms p name \<noteq> Inr True) \<longrightarrow>
      isl (CanAccessIndex ms u name))"
proof -
  let ?ps = "elements (Indices u)"
  have c1: "canAccessIndex_loop ms ?ps name =
     (case find (\<lambda>q. ms q name \<noteq> Inr False) ?ps of
        None \<Rightarrow> Inr False
      | Some p \<Rightarrow> (case ms p name of Inl e \<Rightarrow> Inl e | Inr b \<Rightarrow> Inr True))"
    by (rule canAccessIndex_loop_find)
  have c2: "canAccessIndex_loop ms ?ps name = Inr True \<longrightarrow>
      (\<exists>p \<in> set ?ps. ms p name = Inr True)"
    by (rule impI) (rule canAccessIndex_loop_True_matches)
  have c3: "(\<forall>p \<in> set ?ps. \<exists>b. ms p name = Inr b) \<longrightarrow>
      canAccessIndex_loop ms ?ps name = Inr (\<exists>p \<in> set ?ps. ms p name = Inr True)"
    by (rule impI) (rule canAccessIndex_loop_all_valid)
  have c4: "canAccessIndex_loop ms ?ps name = Inl e \<longrightarrow>
      (\<exists>p \<in> set ?ps. ms p name = Inl e)"
    by (rule impI) (rule canAccessIndex_loop_Inl_stored)
  have c5: "(\<exists>p \<in> set ?ps. isl (ms p name)) \<and> (\<forall>p \<in> set ?ps. ms p name \<noteq> Inr True) \<longrightarrow>
      isl (canAccessIndex_loop ms ?ps name)"
  proof (rule impI)
    assume a: "(\<exists>p \<in> set ?ps. isl (ms p name)) \<and> (\<forall>p \<in> set ?ps. ms p name \<noteq> Inr True)"
    show "isl (canAccessIndex_loop ms ?ps name)"
      by (rule canAccessIndex_loop_invalid_no_match) (use a in blast)+
  qed
  show ?thesis
    unfolding CanAccessIndex_def
    by (rule conjI, rule c1, rule conjI, rule c2, rule conjI, rule c3, rule conjI, rule c4, rule c5)
qed

theorem CanAccessIndex_first_decisive_pattern_witness:
  "regexp_MatchString ''staging-.*'' ''prod-1'' = Inr False \<and>
   regexp_MatchString ''prod-.*'' ''prod-1'' = Inr True \<and>
   CanAccessIndex regexp_MatchString
     \<lparr>UserId = ''u'', Password = ''p'', IsAdmin = Some False, ACLs = Some [], Email = [],
      Ops = Some [], Indices = Some [''staging-.*'', ''prod-.*'']\<rparr> ''prod-1'' = Inr True \<and>
   regexp_MatchString ''+'' ''prod-1'' = Inl (syntax_Error ErrMissingRepeatArgument ''+'') \<and>
   CanAccessIndex regexp_MatchString
     \<lparr>UserId = ''u'', Password = ''p'', IsAdmin = Some False, ACLs = Some [], Email = [],
      Ops = Some [], Indices = Some [''staging-.*'', ''+'']\<rparr> ''prod-1''
     = Inl (syntax_Error ErrMissingRepeatArgument ''+'')"
proof -
  let ?u1 = "\<lparr>UserId = ''u'', Password = ''p'', IsAdmin = Some False, ACLs = Some [], Email = [],
      Ops = Some [], Indices = Some [''staging-.*'', ''prod-.*'']\<rparr>"
  let ?u2 = "\<lparr>UserId = ''u'', Password = ''p'', IsAdmin = Some False, ACLs = Some [], Email = [],
      Ops = Some [], Indices = Some [''staging-.*'', ''+'']\<rparr>"
  have s: "regexp_MatchString ''staging-.*'' ''prod-1'' = Inr False"
    by (simp add: regexp_model_defs)
  have p: "regexp_MatchString ''prod-.*'' ''prod-1'' = Inr True"
    by (simp add: regexp_model_defs)
  have e: "regexp_MatchString ''+'' ''prod-1'' = Inl (syntax_Error ErrMissingRepeatArgument ''+'')"
    by (simp add: regexp_model_defs)
  have valid: "\<forall>q \<in> set (elements (Indices ?u1)). \<exists>b. regexp_MatchString q ''prod-1'' = Inr b"
    by (auto simp add: elements_def s p)
  have some: "\<exists>q \<in> set (elements (Indices ?u1)). regexp_MatchString q ''prod-1'' = Inr True"
    by (simp add: elements_def s p)
  from CanAccessIndex_first_decisive_pattern [of regexp_MatchString ?u1 "''prod-1''"] valid
  have "CanAccessIndex regexp_MatchString ?u1 ''prod-1'' =
          Inr (\<exists>q \<in> set (elements (Indices ?u1)). regexp_MatchString q ''prod-1'' = Inr True)"
    by blast
  with some have r1: "CanAccessIndex regexp_MatchString ?u1 ''prod-1'' = Inr True"
    by presburger
  have inv: "\<exists>q \<in> set (elements (Indices ?u2)). isl (regexp_MatchString q ''prod-1'')"
    by (simp add: elements_def e)
  have nomatch: "\<forall>q \<in> set (elements (Indices ?u2)). regexp_MatchString q ''prod-1'' \<noteq> Inr True"
    by (simp add: elements_def s e)
  from CanAccessIndex_first_decisive_pattern [of regexp_MatchString ?u2 "''prod-1''"] inv nomatch
  have "isl (CanAccessIndex regexp_MatchString ?u2 ''prod-1'')"
    by blast
  then obtain err where err: "CanAccessIndex regexp_MatchString ?u2 ''prod-1'' = Inl err"
    by (cases "CanAccessIndex regexp_MatchString ?u2 ''prod-1''") simp_all
  with CanAccessIndex_first_decisive_pattern [of regexp_MatchString ?u2 "''prod-1''" err]
  have "\<exists>q \<in> set (elements (Indices ?u2)). regexp_MatchString q ''prod-1'' = Inl err"
    by blast
  then have "err = syntax_Error ErrMissingRepeatArgument ''+''"
    by (simp add: elements_def s e)
  with err have r2: "CanAccessIndex regexp_MatchString ?u2 ''prod-1''
     = Inl (syntax_Error ErrMissingRepeatArgument ''+'')" by simp
  from s p r1 e r2 show ?thesis by (intro conjI)
qed

text \<open>
  Claim C2 as stated fails: with the patterns \<open>.*\<close> and \<open>+\<close> in this order the
  result for \<open>x\<close> is true though \<open>+\<close> is not a valid regular expression, and with
  \<open>+\<close> first the result is the error though \<open>.*\<close> matches.
\<close>

theorem CanAccessIndex_or_and_error_counterexample:
  "regexp_MatchString ''+'' ''x'' = Inl (syntax_Error ErrMissingRepeatArgument ''+'') \<and>
   regexp_MatchString ''.*'' ''x'' = Inr True \<and>
   CanAccessIndex regexp_MatchString
     \<lparr>UserId = ''u'', Password = ''p'', IsAdmin = Some False, ACLs = Some [], Email = [],
      Ops = Some [], Indices = Some [''.*'', ''+'']\<rparr> ''x'' = Inr True \<and>
   CanAccessIndex regexp_MatchString
     \<lparr>UserId = ''u'', Password = ''p'', IsAdmin = Some False, ACLs = Some [], Email = [],
      Ops = Some [], Indices = Some [''+'', ''.*'']\<rparr> ''x''
     = Inl (syntax_Error ErrMissingRepeatArgument ''+'')"
proof -
  have e: "regexp_MatchString ''+'' ''x'' = Inl (syntax_Error ErrMissingRepeatArgument ''+'')"
    by (simp add: regexp_model_defs)
  have m: "regexp_MatchString ''.*'' ''x'' = Inr True"
    by (simp add: regexp_model_defs)
  show ?thesis using e m by (simp add: CanAccessIndex_def elements_def)
qed

text \<open>
  Claim C1. An entity whose stored patterns include \<open>*\<close> should be granted every
  non-empty resource name. In the code the pattern \<open>*\<close> is handed to the matcher as
  it is stored, and it is not a regular expression: for the entity whose only pattern
  is \<open>*\<close>, \<open>CanAccessIndex\<close> returns the error "missing argument to repetition
  operator" for every name.
\<close>

theorem CanAccessIndex_star_pattern_error:
  "CanAccessIndex regexp_MatchString
     \<lparr>UserId = ''u'', Password = ''p'', IsAdmin = Some False, ACLs = Some [], Email = [],
      Ops = Some [], Indices = Some [''*'']\<rparr> name
     = Inl (syntax_Error ErrMissingRepeatArgument ''*'') \<and>
   Error_text (syntax_Error ErrMissingRepeatArgument ''*'')
     = ''error parsing regexp: missing argument to repetition operator: `*`''"
  by (simp add: CanAccessIndex_def elements_def regexp_model_defs Error_text_def
        ErrMissingRepeatArgument_def)

section \<open>The resource filter on index-level routes\<close>

lemma validateIndices_patterns_None:
  "validateIndices_patterns ms n ps = None \<longleftrightarrow>
     (\<forall>q \<in> set ps. ms (strings_Replace q (CHR ''*'') ''.*'') n = Inr True)"
proof (induction ps)
  case Nil
  show ?case by simp
next
  case (Cons x xs)
  show ?case
  proof (cases "ms (strings_Replace x (CHR ''*'') ''.*'') n")
    case (Inl e)
    then show ?thesis by (simp add: Let_def)
  next
    case (Inr b)
    then show ?thesis using Cons.IH by (cases b) (simp_all add: Let_def)
  qed
qed

lemma validateIndices_patterns_Some:
  "validateIndices_patterns ms n ps = Some r \<Longrightarrow> status r = StatusUnauthorized"
proof (induction ps)
  case Nil
  then show ?case by simp
next
  case (Cons x xs)
  show ?case
  proof (cases "ms (strings_Replace x (CHR ''*'') ''.*'') n")
    case (Inl e)
    with Cons.prems show ?thesis by (auto simp add: Let_def status_def)
  next
    case (Inr b)
    with Cons show ?thesis by (cases b) (auto simp add: Let_def status_def)
  qed
qed

lemma validateIndices_names_None:
  "validateIndices_names ms ps ns = None \<longleftrightarrow>
     (\<forall>n \<in> set ns. \<forall>q \<in> set ps. ms (strings_Replace q (CHR ''*'') ''.*'') n = Inr True)"
proof (induction ns)
  case Nil
  show ?case by simp
next
  case (Cons n ns)
  show ?case
  proof (cases "validateIndices_patterns ms n ps")
    case None
    with Cons.IH validateIndices_patterns_None [of ms n ps] show ?thesis by simp
  next
    case (Some r)
    with validateIndices_patterns_None [of ms n ps] show ?thesis by simp
  qed
qed

lemma validateIndices_names_Some:
  "validateIndices_names ms ps ns = Some r \<Longrightarrow> status r = StatusUnauthorized"
proof (induction ns)
  case Nil
  then show ?case by simp
next
  case (Cons n ns)
  show ?case
  proof (cases "validateIndices_patterns ms n ps")
    case None
    with Cons show ?thesis by simp
  next
    case (Some r')
    with Cons.prems have "r' = r" by simp
    with Some validateIndices_patterns_Some show ?thesis by blast
  qed
qed

lemma validateIndices_patterns_find:
  "validateIndices_patterns ms n ps =
     (case find (\<lambda>q. ms (strings_Replace q (CHR ''*'') ''.*'') n \<noteq> Inr True) ps of
        None \<Rightarrow> None
      | Some q \<Rightarrow>
          Some (WriteBackMessage
            (if isl (ms (strings_Replace q (CHR ''*'') ''.*'') n)
             then ''invalid index pattern encountered '' @ strings_Replace q (CHR ''*'') ''.*''
             else ''User is unauthorized to access index '' @ n)
            StatusUnauthorized))"
proof (induction ps)
  case Nil
  show ?case by simp
next
  case (Cons x xs)
  show ?case
  proof (cases "ms (strings_Replace x (CHR ''*'') ''.*'') n")
    case (Inl e)
    then show ?thesis by (simp add: Let_def)
  next
    case (Inr b)
    then show ?thesis using Cons.IH by (cases b) (simp_all add: Let_def)
  qed
qed

lemma validateIndices_names_find:
  "validateIndices_names ms ps ns =
     (case find (\<lambda>n. validateIndices_patterns ms n ps \<noteq> None) ns of
        None \<Rightarrow> None
      | Some n \<Rightarrow> validateIndices_patterns ms n ps)"
proof (induction ns)
  case Nil
  show ?case by simp
next
  case (Cons n ns)
  then show ?case by (cases "validateIndices_patterns ms n ps") simp_all
qed

lemma validateIndices_index_level_general:
  assumes "ctx_permission ctx = Some p" and "ctx_indices ctx = Some indices" and "indices \<noteq> []"
  shows
    "(validateIndices ms ctx = Next \<longleftrightarrow>
        (\<forall>n \<in> set indices. \<forall>q \<in> set (Permission_Indices p).
            ms (strings_Replace q (CHR ''*'') ''.*'') n = Inr True)) \<and>
     (validateIndices ms ctx \<noteq> Next \<longrightarrow>
        (\<exists>r. validateIndices ms ctx = Responded r \<and> status r = StatusUnauthorized)) \<and>
     validateIndices ms ctx =
       (case find (\<lambda>n. \<not> (\<forall>q \<in> set (Permission_Indices p).
                           ms (strings_Replace q (CHR ''*'') ''.*'') n = Inr True)) indices of
          None \<Rightarrow> Next
        | Some n \<Rightarrow>
            (case find (\<lambda>q. ms (strings_Replace q (CHR ''*'') ''.*'') n \<noteq> Inr True)
                    (Permission_Indices p) of
               None \<Rightarrow> Next
             | Some q \<Rightarrow>
                 Responded (WriteBackMessage
                   (if isl (ms (strings_Replace q (CHR ''*'') ''.*'') n)
                    then ''invalid index pattern encountered '' @ strings_Replace q (CHR ''*'') ''.*''
                    else ''User is unauthorized to access index '' @ n)
                   StatusUnauthorized)))"
proof -
  let ?ps = "Permission_Indices p"
  have v: "validateIndices ms ctx =
             (case validateIndices_names ms ?ps indices of Some r \<Rightarrow> Responded r | None \<Rightarrow> Next)"
    using assms by (simp add: validateIndices_def permission_FromContext_def)
  have a: "validateIndices ms ctx = Next \<longleftrightarrow>
        (\<forall>n \<in> set indices. \<forall>q \<in> set ?ps. ms (strings_Replace q (CHR ''*'') ''.*'') n = Inr True)"
  proof (cases "validateIndices_names ms ?ps indices")
    case None
    with v validateIndices_names_None [of ms ?ps indices] show ?thesis by simp
  next
    case (Some r)
    with v validateIndices_names_None [of ms ?ps indices] show ?thesis by simp
  qed
  have b: "validateIndices ms ctx \<noteq> Next \<longrightarrow>
        (\<exists>r. validateIndices ms ctx = Responded r \<and> status r = StatusUnauthorized)"
  proof (cases "validateIndices_names ms ?ps indices")
    case None
    with v show ?thesis by simp
  next
    case (Some r)
    with v validateIndices_names_Some [of ms ?ps indices r] show ?thesis by simp
  qed
  have f: "find (\<lambda>n. validateIndices_patterns ms n ?ps \<noteq> None) indices =
           find (\<lambda>n. \<not> (\<forall>q \<in> set ?ps. ms (strings_Replace q (CHR ''*'') ''.*'') n = Inr True)) indices"
    by (simp add: validateIndices_patterns_None)
  have c: "validateIndices ms ctx =
       (case find (\<lambda>n. \<not> (\<forall>q \<in> set ?ps. ms (strings_Replace q (CHR ''*'') ''.*'') n = Inr True)) indices of
          None \<Rightarrow> Next
        | Some n \<Rightarrow>
            (case find (\<lambda>q. ms (strings_Replace q (CHR ''*'') ''.*'') n \<noteq> Inr True) ?ps of
               None \<Rightarrow> Next
             | Some q \<Rightarrow>
                 Responded (WriteBackMessage
                   (if isl (ms (strings_Replace q (CHR ''*'') ''.*'') n)
                    then ''invalid index pattern encountered '' @ strings_Replace q (CHR ''*'') ''.*''
                    else ''User is unauthorized to access index '' @ n)
                   StatusUnauthorized)))"
    unfolding v validateIndices_names_find f [symmetric]
    by (simp add: validateIndices_patterns_find split: option.split)
  from a b c show ?thesis by (intro conjI)
qed

text \<open>
  Claim C3, as the code has it. For a request whose context carries a permission and
  a non-empty resource list, \<open>validateIndices\<close> calls the next handler exactly when,
  for every resource name, every stored pattern of the permission, with each \<open>*\<close>
  replaced by \<open>.*\<close>, matches the name; otherwise it answers with the unauthorized
  status, for the first name that has a failing pattern and the first failing pattern
  of that name. With the patterns \<open>prod-.*\<close> and \<open>staging-.*\<close> the resource list
  \<open>prod-1\<close> is denied, though \<open>CanAccessIndex\<close> grants \<open>prod-1\<close>.
\<close>

theorem validateIndices_index_level:
  "(ctx_permission ctx = Some p \<and> ctx_indices ctx = Some indices \<and> indices \<noteq> [] \<longrightarrow>
     (validateIndices ms ctx = Next \<longleftrightarrow>
        (\<forall>n \<in> set indices. \<forall>q \<in> set (Permission_Indices p).
            ms (strings_Replace q (CHR ''*'') ''.*'') n = Inr True)) \<and>
     (validateIndices ms ctx \<noteq> Next \<longrightarrow>
        (\<exists>r. validateIndices ms ctx = Responded r \<and> status r = StatusUnauthorized)) \<and>
     validateIndices ms ctx =
       (case find (\<lambda>n. \<not> (\<forall>q \<in> set (Permission_Indices p).
                           ms (strings_Replace q (CHR ''*'') ''.*'') n = Inr True)) indices of
          None \<Rightarrow> Next
        | Some n \<Rightarrow>
            (case find (\<lambda>q. ms (strings_Replace q (CHR ''*'') ''.*'') n \<noteq> Inr True)
                    (Permission_Indices p) of
               None \<Rightarrow> Next
             | Some q \<Rightarrow>
                 Responded (WriteBackMessage
                   (if isl (ms (strings_Replace q (CHR ''*'') ''.*'') n)
                    then ''invalid index pattern encountered '' @ strings_Replace q (CHR ''*'') ''.*''
                    else ''User is unauthorized to access index '' @ n)
                   StatusUnauthorized)))) \<and>
   validateIndices regexp_MatchString
     \<lparr>ctx_acl = Some Misc, ctx_op = Some Read, ctx_indices = Some [''prod-1''],
      ctx_permission = Some \<lparr>Username = ''u'', Permission_ACLs = [Misc], Permission_Ops = [Read],
        Permission_Indices = [''prod-.*'', ''staging-.*'']\<rparr>\<rparr>
     = Responded (WriteBackMessage ''User is unauthorized to access index prod-1'' StatusUnauthorized) \<and>
   Permission_CanAccessIndex regexp_MatchString
     \<lparr>Username = ''u'', Permission_ACLs = [Misc], Permission_Ops = [Read],
      Permission_Indices = [''prod-.*'', ''staging-.*'']\<rparr> ''prod-1'' = Inr True \<and>
   CanAccessIndex regexp_MatchString
     \<lparr>UserId = ''u'', Password = ''p'', IsAdmin = Some False, ACLs = Some [], Email = [],
      Ops = Some [], Indices = Some [''prod-.*'', ''staging-.*'']\<rparr> ''prod-1'' = Inr True"
proof -
  have r1: "strings_Replace ''prod-.*'' (CHR ''*'') ''.*'' = ''prod-..*''"
    by (simp add: strings_Replace_def)
  have r2: "strings_Replace ''staging-.*'' (CHR ''*'') ''.*'' = ''staging-..*''"
    by (simp add: strings_Replace_def)
  have m1: "regexp_MatchString ''prod-..*'' ''prod-1'' = Inr True"
    by (simp add: regexp_model_defs)
  have m2: "regexp_MatchString ''staging-..*'' ''prod-1'' = Inr False"
    by (simp add: regexp_model_defs)
  have m3: "regexp_MatchString ''prod-.*'' ''prod-1'' = Inr True"
    by (simp add: regexp_model_defs)
  have particular: "validateIndices regexp_MatchString
     \<lparr>ctx_acl = Some Misc, ctx_op = Some Read, ctx_indices = Some [''prod-1''],
      ctx_permission = Some \<lparr>Username = ''u'', Permission_ACLs = [Misc], Permission_Ops = [Read],
        Permission_Indices = [''prod-.*'', ''staging-.*'']\<rparr>\<rparr>
     = Responded (WriteBackMessage ''User is unauthorized to access index prod-1'' StatusUnauthorized)"
    by (simp add: validateIndices_def permission_FromContext_def Let_def r1 r2 m1 m2)
  have por: "Permission_CanAccessIndex regexp_MatchString
     \<lparr>Username = ''u'', Permission_ACLs = [Misc], Permission_Ops = [Read],
      Permission_Indices = [''prod-.*'', ''staging-.*'']\<rparr> ''prod-1'' = Inr True"
    by (simp add: Permission_CanAccessIndex_def m3)
  have uor: "CanAccessIndex regexp_MatchString
     \<lparr>UserId = ''u'', Password = ''p'', IsAdmin = Some False, ACLs = Some [], Email = [],
      Ops = Some [], Indices = Some [''prod-.*'', ''staging-.*'']\<rparr> ''prod-1'' = Inr True"
    by (simp add: CanAccessIndex_def elements_def m3)
  show ?thesis
    using validateIndices_index_level_general [of ctx p indices ms] particular por uor
    by blast
qed

theorem validateIndices_index_level_witness:
  "ctx_permission
     \<lparr>ctx_acl = Some Misc, ctx_op = Some Read, ctx_indices = Some [''prod-1'', ''prod-2''],
      ctx_permission = Some \<lparr>Username = ''u'', Permission_ACLs = [Misc], Permission_Ops = [Read],
        Permission_Indices = [''prod-*'', ''p*'']\<rparr>\<rparr>
     = Some \<lparr>Username = ''u'', Permission_ACLs = [Misc], Permission_Ops = [Read],
        Permission_Indices = [''prod-*'', ''p*'']\<rparr> \<and>
   [''prod-1'', ''prod-2''] \<noteq> [] \<and>
   validateIndices regexp_MatchString
     \<lparr>ctx_acl = Some Misc, ctx_op = Some Read, ctx_indices = Some [''prod-1'', ''prod-2''],
      ctx_permission = Some \<lparr>Username = ''u'', Permission_ACLs = [Misc], Permission_Ops = [Read],
        Permission_Indices = [''prod-*'', ''p*'']\<rparr>\<rparr> = Next"
proof -
  let ?p = "\<lparr>Username = ''u'', Permission_ACLs = [Misc], Permission_Ops = [Read],
        Permission_Indices = [''prod-*'', ''p*'']\<rparr>"
  let ?ctx = "\<lparr>ctx_acl = Some Misc, ctx_op = Some Read, ctx_indices = Some [''prod-1'', ''prod-2''],
      ctx_permission = Some ?p\<rparr>"
  have r1: "strings_Replace ''prod-*'' (CHR ''*'') ''.*'' = ''prod-.*''"
    by (simp add: strings_Replace_def)
  have r2: "strings_Replace ''p*'' (CHR ''*'') ''.*'' = ''p.*''"
    by (simp add: strings_Replace_def)
  have m1: "regexp_MatchString ''prod-.*'' ''prod-1'' = Inr True"
    by (simp add: regexp_model_defs)
  have m2: "regexp_MatchString ''prod-.*'' ''prod-2'' = Inr True"
    by (simp add: regexp_model_defs)
  have m3: "regexp_MatchString ''p.*'' ''prod-1'' = Inr True"
    by (simp add: regexp_model_defs)
  have m4: "regexp_MatchString ''p.*'' ''prod-2'' = Inr True"
    by (simp add: regexp_model_defs)
  have h: "ctx_permission ?ctx = Some ?p \<and> ctx_indices ?ctx = Some [''prod-1'', ''prod-2''] \<and>
           [''prod-1'', ''prod-2''] \<noteq> []"
    by simp
  have all: "\<forall>n \<in> set [''prod-1'', ''prod-2'']. \<forall>q \<in> set (Permission_Indices ?p).
            regexp_MatchString (strings_Replace q (CHR ''*'') ''.*'') n = Inr True"
    by (simp add: r1 r2 m1 m2 m3 m4)
  from validateIndices_index_level [of ?ctx ?p "[''prod-1'', ''prod-2'']" regexp_MatchString] h all
  have "validateIndices regexp_MatchString ?ctx = Next"
    by blast
  with h show ?thesis by simp
qed

text \<open>
  Claim C3 as stated fails where it speaks of the stored pattern matching the name:
  the stored pattern \<open>ab*c\<close> does not match \<open>abxc\<close>, and the filter lets the request
  for \<open>abxc\<close> pass, because it matches \<open>ab.*c\<close>.
\<close>

theorem validateIndices_stored_pattern_counterexample:
  "validateIndices regexp_MatchString
     \<lparr>ctx_acl = Some Misc, ctx_op = Some Read, ctx_indices = Some [''abxc''],
      ctx_permission = Some \<lparr>Username = ''u'', Permission_ACLs = [Misc], Permission_Ops = [Read],
        Permission_Indices = [''ab*c'']\<rparr>\<rparr> = Next \<and>
   regexp_MatchString ''ab*c'' ''abxc'' = Inr False"
proof -
  have r: "strings_Replace ''ab*c'' (CHR ''*'') ''.*'' = ''ab.*c''"
    by (simp add: strings_Replace_def)
  have m1: "regexp_MatchString ''ab.*c'' ''abxc'' = Inr True"
    by (simp add: regexp_model_defs)
  have m2: "regexp_MatchString ''ab*c'' ''abxc'' = Inr False"
    by (simp add: regexp_model_defs)
  show ?thesis
    by (simp add: validateIndices_def permission_FromContext_def Let_def r m1 m2)
qed

section \<open>The resource filter on cluster-level routes\<close>

text \<open>
  Claim C4, as the code has it. For a request whose context carries a permission and
  an empty resource list, \<open>validateIndices\<close> calls the next handler exactly when
  \<open>CanAccessIndex\<close> of the permission returns true for the name \<open>*\<close>; when it
  returns false the filter answers with the unauthorized status and the text on
  cluster level routes; when it returns an error the filter answers with the status
  of a bad request and the text of the error.
\<close>

theorem validateIndices_cluster_level:
  "ctx_permission ctx = Some p \<and> ctx_indices ctx = Some [] \<longrightarrow>
     validateIndices ms ctx =
       (case Permission_CanAccessIndex ms p ''*'' of
          Inl err \<Rightarrow> Responded (WriteBackError (Error_text err) StatusBadRequest)
        | Inr canAccess \<Rightarrow>
            if canAccess then Next
            else Responded (WriteBackError ''User is unauthorized to access cluster level routes''
                              StatusUnauthorized)) \<and>
     (validateIndices ms ctx = Next \<longleftrightarrow> Permission_CanAccessIndex ms p ''*'' = Inr True)"
  by (simp add: validateIndices_def permission_FromContext_def split: sum.split)

theorem validateIndices_cluster_level_witness:
  "ctx_permission
     \<lparr>ctx_acl = Some Misc, ctx_op = Some Read, ctx_indices = Some [],
      ctx_permission = Some \<lparr>Username = ''u'', Permission_ACLs = [Misc], Permission_Ops = [Read],
        Permission_Indices = [''prod-.*'', ''.*'']\<rparr>\<rparr>
     = Some \<lparr>Username = ''u'', Permission_ACLs = [Misc], Permission_Ops = [Read],
        Permission_Indices = [''prod-.*'', ''.*'']\<rparr> \<and>
   Permission_CanAccessIndex regexp_MatchString
     \<lparr>Username = ''u'', Permission_ACLs = [Misc], Permission_Ops = [Read],
      Permission_Indices = [''prod-.*'', ''.*'']\<rparr> ''*'' = Inr True \<and>
   validateIndices regexp_MatchString
     \<lparr>ctx_acl = Some Misc, ctx_op = Some Read, ctx_indices = Some [],
      ctx_permission = Some \<lparr>Username = ''u'', Permission_ACLs = [Misc], Permission_Ops = [Read],
        Permission_Indices = [''prod-.*'', ''.*'']\<rparr>\<rparr> = Next \<and>
   Permission_CanAccessIndex regexp_MatchString
     \<lparr>Username = ''u'', Permission_ACLs = [Misc], Permission_Ops = [Read],
      Permission_Indices = [''prod-.*'']\<rparr> ''*'' = Inr False \<and>
   validateIndices regexp_MatchString
     \<lparr>ctx_acl = Some Misc, ctx_op = Some Read, ctx_indices = Some [],
      ctx_permission = Some \<lparr>Username = ''u'', Permission_ACLs = [Misc], Permission_Ops = [Read],
        Permission_Indices = [''prod-.*'']\<rparr>\<rparr>
     = Responded (WriteBackError ''User is unauthorized to access cluster level routes''
                    StatusUnauthorized)"
proof -
  let ?p = "\<lparr>Username = ''u'', Permission_ACLs = [Misc], Permission_Ops = [Read],
        Permission_Indices = [''prod-.*'', ''.*'']\<rparr>"
  let ?ctx = "\<lparr>ctx_acl = Some Misc, ctx_op = Some Read, ctx_indices = Some [],
      ctx_permission = Some ?p\<rparr>"
  let ?p' = "\<lparr>Username = ''u'', Permission_ACLs = [Misc], Permission_Ops = [Read],
        Permission_Indices = [''prod-.*'']\<rparr>"
  let ?ctx' = "\<lparr>ctx_acl = Some Misc, ctx_op = Some Read, ctx_indices = Some [],
      ctx_permission = Some ?p'\<rparr>"
  have m1: "regexp_MatchString ''prod-.*'' ''*'' = Inr False"
    by (simp add: regexp_model_defs)
  have m2: "regexp_MatchString ''.*'' ''*'' = Inr True"
    by (simp add: regexp_model_defs)
  have a: "Permission_CanAccessIndex regexp_MatchString ?p ''*'' = Inr True"
    by (simp add: Permission_CanAccessIndex_def m1 m2)
  have a': "Permission_CanAccessIndex regexp_MatchString ?p' ''*'' = Inr False"
    by (simp add: Permission_CanAccessIndex_def m1)
  have h: "ctx_permission ?ctx = Some ?p \<and> ctx_indices ?ctx = Some []" by simp
  have h': "ctx_permission ?ctx' = Some ?p' \<and> ctx_indices ?ctx' = Some []" by simp
  from validateIndices_cluster_level [of ?ctx ?p regexp_MatchString] h a
  have n: "validateIndices regexp_MatchString ?ctx = Next" by blast
  from validateIndices_cluster_level [of ?ctx' ?p' regexp_MatchString] h'
  have "validateIndices regexp_MatchString ?ctx' =
       (case Permission_CanAccessIndex regexp_MatchString ?p' ''*'' of
          Inl err \<Rightarrow> Responded (WriteBackError (Error_text err) StatusBadRequest)
        | Inr canAccess \<Rightarrow>
            if canAccess then Next
            else Responded (WriteBackError ''User is unauthorized to access cluster level routes''
                              StatusUnauthorized))" by blast
  then have d: "validateIndices regexp_MatchString ?ctx' =
      Responded (WriteBackError ''User is unauthorized to access cluster level routes''
                              StatusUnauthorized)"
    unfolding a' by simp
  from h a n a' d show ?thesis by simp
qed

text \<open>
  Claim C4 as stated fails: a permission whose pattern \<open>+\<close> is not a regular
  expression is neither let through nor answered as unauthorized; the answer is a bad
  request.
\<close>

theorem validateIndices_cluster_level_counterexample:
  "validateIndices regexp_MatchString
     \<lparr>ctx_acl = Some Misc, ctx_op = Some Read, ctx_indices = Some [],
      ctx_permission = Some \<lparr>Username = ''u'', Permission_ACLs = [Misc], Permission_Ops = [Read],
        Permission_Indices = [''+'']\<rparr>\<rparr>
     = Responded (WriteBackError
         ''error parsing regexp: missing argument to repetition operator: `+`'' StatusBadRequest) \<and>
   StatusBadRequest \<noteq> StatusUnauthorized"
proof -
  have e: "regexp_MatchString ''+'' ''*'' = Inl (syntax_Error ErrMissingRepeatArgument ''+'')"
    by (simp add: regexp_model_defs)
  show ?thesis
    by (simp add: validateIndices_def permission_FromContext_def Permission_CanAccessIndex_def e
          Error_text_def ErrMissingRepeatArgument_def StatusBadRequest_def StatusUnauthorized_def)
qed

section \<open>The resource names of a request\<close>

lemma strings_Split_not_Nil: "strings_Split s sep \<noteq> []"
  by (induction s) (auto split: list.splits)

lemma length_strings_Split:
  "length (strings_Split s sep) = Suc (length (filter (\<lambda>c. c = sep) s))"
proof (induction s)
  case Nil
  show ?case by simp
next
  case (Cons c cs)
  show ?case
  proof (cases "c = sep")
    case True
    with Cons show ?thesis by simp
  next
    case False
    obtain t ts where "strings_Split cs sep = t # ts"
      using strings_Split_not_Nil [of cs sep] by (cases "strings_Split cs sep") auto
    with False Cons show ?thesis by auto
  qed
qed

lemma length_strings_Split_le:
  assumes "c \<in> set s" and "c \<noteq> sep"
  shows "length (strings_Split s sep) \<le> length s"
proof -
  from assms have "length (filter (\<lambda>c. c = sep) s) < length s"
    by (intro length_filter_less [of c]) simp_all
  then show ?thesis by (simp add: length_strings_Split)
qed

lemma strings_Split_first_prefix:
  "strings_Split s sep = t # ts \<Longrightarrow> prefix t s"
proof (induction s arbitrary: t ts)
  case Nil
  then show ?case by simp
next
  case (Cons c cs)
  show ?case
  proof (cases "c = sep")
    case True
    with Cons.prems show ?thesis by simp
  next
    case False
    obtain t' ts' where sp: "strings_Split cs sep = t' # ts'"
      using strings_Split_not_Nil [of cs sep] by (cases "strings_Split cs sep") auto
    with False Cons.prems have "t = c # t'" by simp
    moreover from sp Cons.IH have "prefix t' cs" by blast
    ultimately show ?thesis by simp
  qed
qed

lemma strings_Split_token_Contains:
  "t \<in> set (strings_Split s sep) \<Longrightarrow> strings_Contains s t"
proof (induction s)
  case Nil
  then show ?case by simp
next
  case (Cons c cs)
  obtain t' ts' where sp: "strings_Split cs sep = t' # ts'"
    using strings_Split_not_Nil [of cs sep] by (cases "strings_Split cs sep") auto
  show ?case
  proof (cases "c = sep")
    case True
    with Cons.prems have "t = [] \<or> t \<in> set (strings_Split cs sep)" by simp
    then show ?thesis
    proof
      assume "t = []"
      then show ?thesis by simp
    next
      assume "t \<in> set (strings_Split cs sep)"
      with Cons.IH show ?thesis by simp
    qed
  next
    case False
    with sp Cons.prems have "t = c # t' \<or> t \<in> set ts'" by simp
    then show ?thesis
    proof
      assume "t = c # t'"
      moreover from sp have "prefix t' cs" by (rule strings_Split_first_prefix)
      ultimately show ?thesis by simp
    next
      assume "t \<in> set ts'"
      with sp have "t \<in> set (strings_Split cs sep)" by simp
      with Cons.IH show ?thesis by simp
    qed
  qed
qed

lemma getIndexName_loop_found:
  assumes "k < n" and "k < length ets" and "k < length pts" and "ets ! k = indexVar"
    and "\<forall>j. i \<le> j \<and> j < k \<longrightarrow> ets ! j \<noteq> indexVar" and "i \<le> k"
  shows "getIndexName_loop ets pts n i =
           Inr (map strings_TrimSpace (strings_Split (pts ! k) (CHR '','')))"
  using assms
proof (induction "k - i" arbitrary: i)
  case 0
  then have "i = k" by simp
  with 0 show ?case by (simp add: getIndexName_loop.simps [of ets pts n k])
next
  case (Suc d)
  then have lt: "i < k" by simp
  with Suc.prems have ne: "ets ! i \<noteq> indexVar" by simp
  from lt Suc.prems have r: "i < n" "i < length ets" by simp_all
  have "getIndexName_loop ets pts n (Suc i) =
           Inr (map strings_TrimSpace (strings_Split (pts ! k) (CHR '','')))"
  proof (rule Suc.hyps(1))
    show "d = k - Suc i" using Suc.hyps(2) by simp
    show "\<forall>j. Suc i \<le> j \<and> j < k \<longrightarrow> ets ! j \<noteq> indexVar" using Suc.prems(5) by simp
    show "Suc i \<le> k" using lt by simp
  qed (use Suc.prems in simp_all)
  with ne r show ?case by (simp add: getIndexName_loop.simps [of ets pts n i])
qed


lemma getIndexName_placeholder_segment:
  assumes len: "length (strings_Split endpoint (CHR ''/'')) = length (strings_Split requestPath (CHR ''/''))"
    and k: "k < length (strings_Split endpoint (CHR ''/''))"
    and at: "strings_Split endpoint (CHR ''/'') ! k = indexVar"
    and first: "\<forall>j < k. strings_Split endpoint (CHR ''/'') ! j \<noteq> indexVar"
    and bound: "k < length requestPath"
  shows "getIndexName endpoint requestPath =
           Inr (map strings_TrimSpace
                  (strings_Split (strings_Split requestPath (CHR ''/'') ! k) (CHR '','')))"
proof -
  from k at have "indexVar \<in> set (strings_Split endpoint (CHR ''/''))"
    by (metis nth_mem)
  then have c: "strings_Contains endpoint indexVar"
    by (rule strings_Split_token_Contains)
  have "getIndexName_loop (strings_Split endpoint (CHR ''/'')) (strings_Split requestPath (CHR ''/''))
          (length requestPath) 0 =
        Inr (map strings_TrimSpace
               (strings_Split (strings_Split requestPath (CHR ''/'') ! k) (CHR '','')))"
    using bound k len at first by (intro getIndexName_loop_found) simp_all
  with c len show ?thesis by (simp add: getIndexName_def)
qed

text \<open>
  Claim C7, as the code has it. \<open>getIndexName\<close> returns the empty list when the
  endpoint pattern does not contain the placeholder \<open>{index}\<close> and when the numbers
  of segments between \<open>/\<close> of the pattern and of the path differ. Otherwise, when a
  segment of the pattern is the placeholder itself and the position of the first such
  segment is below the length of the path in bytes (as it is whenever the path has a
  byte other than \<open>/\<close>), it splits the segment of the path at that position on
  commas, trims the white space of each piece and returns the pieces in order. The
  pattern \<open>/{index}/_mapping\<close> with the path \<open>/a,b/_mapping\<close> gives \<open>a\<close> and \<open>b\<close>.
\<close>

theorem getIndexName_resource_names:
  "(\<not> strings_Contains endpoint indexVar \<longrightarrow> getIndexName endpoint requestPath = Inr []) \<and>
   (length (strings_Split endpoint (CHR ''/'')) \<noteq> length (strings_Split requestPath (CHR ''/''))
      \<longrightarrow> getIndexName endpoint requestPath = Inr []) \<and>
   (length (strings_Split endpoint (CHR ''/'')) = length (strings_Split requestPath (CHR ''/'')) \<and>
    k < length (strings_Split endpoint (CHR ''/'')) \<and>
    strings_Split endpoint (CHR ''/'') ! k = indexVar \<and>
    (\<forall>j < k. strings_Split endpoint (CHR ''/'') ! j \<noteq> indexVar) \<and>
    (k < length requestPath \<or> (\<exists>c \<in> set requestPath. c \<noteq> CHR ''/''))
      \<longrightarrow> getIndexName endpoint requestPath =
            Inr (map strings_TrimSpace
                   (strings_Split (strings_Split requestPath (CHR ''/'') ! k) (CHR '','')))) \<and>
   getIndexName ''/{index}/_mapping'' ''/a,b/_mapping'' = Inr [''a'', ''b'']"
proof -
  have a: "\<not> strings_Contains endpoint indexVar \<longrightarrow> getIndexName endpoint requestPath = Inr []"
    by (simp add: getIndexName_def)
  have b: "length (strings_Split endpoint (CHR ''/'')) \<noteq> length (strings_Split requestPath (CHR ''/''))
      \<longrightarrow> getIndexName endpoint requestPath = Inr []"
    by (simp add: getIndexName_def Let_def)
  have c: "length (strings_Split endpoint (CHR ''/'')) = length (strings_Split requestPath (CHR ''/'')) \<and>
    k < length (strings_Split endpoint (CHR ''/'')) \<and>
    strings_Split endpoint (CHR ''/'') ! k = indexVar \<and>
    (\<forall>j < k. strings_Split endpoint (CHR ''/'') ! j \<noteq> indexVar) \<and>
    (k < length requestPath \<or> (\<exists>c \<in> set requestPath. c \<noteq> CHR ''/''))
      \<longrightarrow> getIndexName endpoint requestPath =
            Inr (map strings_TrimSpace
                   (strings_Split (strings_Split requestPath (CHR ''/'') ! k) (CHR '','')))"
  proof (rule impI)
    assume h: "length (strings_Split endpoint (CHR ''/'')) = length (strings_Split requestPath (CHR ''/'')) \<and>
      k < length (strings_Split endpoint (CHR ''/'')) \<and>
      strings_Split endpoint (CHR ''/'') ! k = indexVar \<and>
      (\<forall>j < k. strings_Split endpoint (CHR ''/'') ! j \<noteq> indexVar) \<and>
      (k < length requestPath \<or> (\<exists>c \<in> set requestPath. c \<noteq> CHR ''/''))"
    have bound: "k < length requestPath"
    proof (cases "k < length requestPath")
      case True
      then show ?thesis .
    next
      case False
      with h obtain c where "c \<in> set requestPath" "c \<noteq> CHR ''/''" by blast
      then have "length (strings_Split requestPath (CHR ''/'')) \<le> length requestPath"
        by (rule length_strings_Split_le)
      with h show ?thesis by simp
    qed
    from h bound show "getIndexName endpoint requestPath =
            Inr (map strings_TrimSpace
                   (strings_Split (strings_Split requestPath (CHR ''/'') ! k) (CHR '','')))"
      by (intro getIndexName_placeholder_segment) simp_all
  qed
  have d: "getIndexName ''/{index}/_mapping'' ''/a,b/_mapping'' = Inr [''a'', ''b'']"
    by (simp add: getIndexName_def indexVar_def getIndexName_loop.simps strings_TrimSpace_def
          isSpace1_def isSpace2_def isSpace3_def)
  from a b c d show ?thesis by (intro conjI)
qed

theorem getIndexName_resource_names_witness:
  "\<not> strings_Contains ''/_cat/indices'' indexVar \<and>
   getIndexName ''/_cat/indices'' ''/_cat/indices'' = Inr [] \<and>
   length (strings_Split ''/{index}/_mapping'' (CHR ''/'')) \<noteq>
     length (strings_Split ''/a/b/_mapping'' (CHR ''/'')) \<and>
   getIndexName ''/{index}/_mapping'' ''/a/b/_mapping'' = Inr [] \<and>
   strings_Split ''/_cat/{index}'' (CHR ''/'') = ['''', ''_cat'', ''{index}''] \<and>
   strings_Split ''/_cat/ a , b'' (CHR ''/'') = ['''', ''_cat'', '' a , b''] \<and>
   getIndexName ''/_cat/{index}'' ''/_cat/ a , b'' = Inr [''a'', ''b'']"
proof -
  have n: "\<not> strings_Contains ''/_cat/indices'' indexVar"
    by (simp add: indexVar_def)
  have l: "length (strings_Split ''/{index}/_mapping'' (CHR ''/'')) \<noteq>
     length (strings_Split ''/a/b/_mapping'' (CHR ''/''))"
    by simp
  have s1: "strings_Split ''/_cat/{index}'' (CHR ''/'') = ['''', ''_cat'', ''{index}'']"
    by simp
  have s2: "strings_Split ''/_cat/ a , b'' (CHR ''/'') = ['''', ''_cat'', '' a , b'']"
    by simp
  have h: "length (strings_Split ''/_cat/{index}'' (CHR ''/'')) =
             length (strings_Split ''/_cat/ a , b'' (CHR ''/'')) \<and>
           2 < length (strings_Split ''/_cat/{index}'' (CHR ''/'')) \<and>
           strings_Split ''/_cat/{index}'' (CHR ''/'') ! 2 = indexVar \<and>
           (\<forall>j < 2. strings_Split ''/_cat/{index}'' (CHR ''/'') ! j \<noteq> indexVar) \<and>
           (2 < length ''/_cat/ a , b'' \<or> (\<exists>c \<in> set ''/_cat/ a , b''. c \<noteq> CHR ''/''))"
    unfolding s1 s2 by (simp add: indexVar_def less_Suc_eq numeral_2_eq_2)
  have t: "map strings_TrimSpace (strings_Split (['''', ''_cat'', '' a , b''] ! 2) (CHR '',''))
             = [''a'', ''b'']"
    by (simp add: strings_TrimSpace_def isSpace1_def isSpace2_def isSpace3_def)
  from getIndexName_resource_names [of "''/_cat/indices''" "''/_cat/indices''" 0] n
  have r1: "getIndexName ''/_cat/indices'' ''/_cat/indices'' = Inr []" by blast
  from getIndexName_resource_names [of "''/{index}/_mapping''" "''/a/b/_mapping''" 0] l
  have r2: "getIndexName ''/{index}/_mapping'' ''/a/b/_mapping'' = Inr []" by blast
  from getIndexName_resource_names [of "''/_cat/{index}''" "''/_cat/ a , b''" 2] h
  have "getIndexName ''/_cat/{index}'' ''/_cat/ a , b'' =
          Inr (map strings_TrimSpace
                 (strings_Split (strings_Split ''/_cat/ a , b'' (CHR ''/'') ! 2) (CHR '','')))"
    by blast
  then have r3: "getIndexName ''/_cat/{index}'' ''/_cat/ a , b'' = Inr [''a'', ''b'']"
    unfolding s2 t .
  from n r1 l r2 s1 s2 r3 show ?thesis by (intro conjI)
qed

text \<open>
  Claim C7 as stated fails for a pattern that contains the placeholder inside a larger
  segment: the loop compares whole segments with the placeholder, finds none, and
  returns the empty list instead of the pieces of the path's segment.
\<close>

theorem getIndexName_inner_placeholder_counterexample:
  "strings_Contains ''/{index}s'' indexVar \<and>
   strings_Split ''/{index}s'' (CHR ''/'') = ['''', ''{index}s''] \<and>
   strings_Split ''/a'' (CHR ''/'') = ['''', ''a''] \<and>
   map strings_TrimSpace (strings_Split ''a'' (CHR '','')) = [''a''] \<and>
   getIndexName ''/{index}s'' ''/a'' = Inr []"
  by (simp add: getIndexName_def indexVar_def getIndexName_loop.simps strings_TrimSpace_def
        isSpace1_def isSpace2_def isSpace3_def)

text \<open>
  Claim C10. For a pattern that contains the placeholder and a path with as many
  segments, \<open>getIndexName\<close> should index its segment lists within their bounds.
  The loop runs to the length of the path in bytes, not to the number of segments: for
  the pattern \<open>/{index}s\<close> and the path \<open>/ab\<close> no segment is the placeholder, and
  the third round reads \<open>endpointTokens[2]\<close> of a list of two, which panics.
\<close>

theorem getIndexName_inner_placeholder_panics:
  "strings_Contains ''/{index}s'' indexVar \<and>
   strings_Split ''/{index}s'' (CHR ''/'') = ['''', ''{index}s''] \<and>
   strings_Split ''/ab'' (CHR ''/'') = ['''', ''ab''] \<and>
   getIndexName ''/{index}s'' ''/ab'' = Inl IndexOutOfRange"
  by (simp add: getIndexName_def indexVar_def getIndexName_loop.simps)

end
